theory Spec2Isabelle
  imports Complex_Main
begin

section \<open>Geometry.cpp: a shallow embedding\<close>

text \<open>
  The embedding follows \<^verbatim>\<open>Geometry.cpp\<close> function by function.

  \<^item> C++ \<^verbatim>\<open>int\<close> is modelled as \<^typ>\<open>int\<close>. Signed overflow is undefined behaviour in
    the source and lies outside the model: the statements hold for coordinates whose
    intermediate results fit the machine type.
  \<^item> C++ \<^verbatim>\<open>float\<close> is modelled as \<^typ>\<open>real\<close>, that is with exact arithmetic and without
    rounding, infinities or NaN. Where IEEE arithmetic would leave the finite numbers
    (a division by zero, the square root of a negative number) the model returns an
    \<open>error\<close> instead of a number.
  \<^item> Output reference parameters are passed in with their value before the call and are
    returned, next to the return value, with their value after it.
\<close>

datatype error = DivisionByZero | SqrtOfNegative | OutOfBounds

type_synonym Vector2i = "int \<times> int"
type_synonym Vector2f = "real \<times> real"

subsection \<open>Arithmetic of the source language\<close>

text \<open>Integer division of C++ truncates towards zero; a zero divisor has no result.\<close>

definition tdiv :: "int \<Rightarrow> int \<Rightarrow> int" where
  "tdiv a b = sgn a * sgn b * (\<bar>a\<bar> div \<bar>b\<bar>)"

definition idiv :: "int \<Rightarrow> int \<Rightarrow> error + int" where
  "idiv a b = (if b = 0 then Inl DivisionByZero else Inr (tdiv a b))"

text \<open>
  Modelled from the spec: \<^verbatim>\<open>sgn\<close> of \<^verbatim>\<open>MathBase/BHMath.h\<close> is not among the sources.
  The rasterizer uses it as the ``separate sign factor'' of the dominant delta, which is
  never zero where it is taken.
\<close>

definition sgn_i :: "int \<Rightarrow> int" where
  "sgn_i a = (if a < 0 then - 1 else if a = 0 then 0 else 1)"

text \<open>
  The remainder of C++ integer division, \<^verbatim>\<open>a % b\<close>, takes the sign of the dividend.
\<close>

definition irem :: "int \<Rightarrow> int \<Rightarrow> error + int" where
  "irem a b = (if b = 0 then Inl DivisionByZero else Inr (a - tdiv a b * b))"

text \<open>Floating-point division and square root, as far as they stay among the numbers.\<close>

definition fdiv :: "real \<Rightarrow> real \<Rightarrow> error + real" where
  "fdiv a b = (if b = 0 then Inl DivisionByZero else Inr (a / b))"

definition fsqrt :: "real \<Rightarrow> error + real" where
  "fsqrt a = (if a < 0 then Inl SqrtOfNegative else Inr (sqrt a))"

text \<open>
  Modelled from the spec: \<^verbatim>\<open>sqr\<close> of \<^verbatim>\<open>MathBase/BHMath.h\<close> is not among the sources; the
  spec speaks of the ``squared radius'' and of ``squared distance'' where the code calls it.
\<close>

definition sqr :: "real \<Rightarrow> real" where
  "sqr a = a * a"

text \<open>
  The vector type of the Eigen library, with the operations the code uses: the two
  components, sum, difference, scaling, dot product and squared norm.
\<close>

abbreviation vx :: "'a \<times> 'a \<Rightarrow> 'a" where "vx v \<equiv> fst v"
abbreviation vy :: "'a \<times> 'a \<Rightarrow> 'a" where "vy v \<equiv> snd v"

definition vadd :: "Vector2f \<Rightarrow> Vector2f \<Rightarrow> Vector2f" where
  "vadd u v = (vx u + vx v, vy u + vy v)"

definition vsub :: "Vector2f \<Rightarrow> Vector2f \<Rightarrow> Vector2f" where
  "vsub u v = (vx u - vx v, vy u - vy v)"

definition vscale :: "Vector2f \<Rightarrow> real \<Rightarrow> Vector2f" where
  "vscale v k = (vx v * k, vy v * k)"

definition dot :: "Vector2f \<Rightarrow> Vector2f \<Rightarrow> real" where
  "dot u v = vx u * vx v + vy u * vy v"

definition squaredNorm :: "Vector2f \<Rightarrow> real" where
  "squaredNorm v = vx v * vx v + vy v * vy v"

text \<open>
  Reading \<^verbatim>\<open>polygon[i]\<close> from an array of known extent; outside of it the read has no
  result.
\<close>

definition elemAt :: "'a list \<Rightarrow> int \<Rightarrow> error + 'a" where
  "elemAt xs i = (if 0 \<le> i \<and> i < int (length xs) then Inr (xs ! nat i) else Inl OutOfBounds)"

subsection \<open>Lines and circles\<close>

record Line =
  base :: Vector2f
  direction :: Vector2f

record Circle =
  center :: Vector2f
  radius :: real

subsection \<open>PixeledLine::calculatePixels\<close>

text \<open>
  Both \<^verbatim>\<open>for\<close> loops have the shape
  \<^verbatim>\<open>for(int i = 0; i < numberOfPixels; i += stepSize) emplace_back(body(i))\<close>.
  The vector under construction is the last argument and \<^verbatim>\<open>emplace_back\<close> appends to
  it. A loop that is never left has the value \<open>None\<close>.
\<close>

partial_function (option) pixelLoop ::
  "(int \<Rightarrow> error + Vector2i) \<Rightarrow> int \<Rightarrow> int \<Rightarrow> int \<Rightarrow> Vector2i list
    \<Rightarrow> (error + Vector2i list) option"
where
  "pixelLoop body stepSize numberOfPixels i pixels =
     (if i < numberOfPixels then
        (case body i of
           Inl e \<Rightarrow> Some (Inl e)
         | Inr p \<Rightarrow> pixelLoop body stepSize numberOfPixels (i + stepSize) (pixels @ [p]))
      else Some (Inr pixels))"

declare pixelLoop.simps [code]

text \<open>
  The function is called from the constructors only, on the empty vector
  (\<^verbatim>\<open>ASSERT(empty())\<close>); the result is the vector after the call. \<^verbatim>\<open>reserve\<close> changes
  the capacity only, which the model does not track, but its argument
  \<^verbatim>\<open>numberOfPixels / stepSize\<close> is evaluated.
\<close>

definition calculatePixels ::
  "int \<Rightarrow> int \<Rightarrow> int \<Rightarrow> int \<Rightarrow> int \<Rightarrow> (error + Vector2i list) option"
where
  "calculatePixels x1 y1 x2 y2 stepSize =
     (if x1 = x2 \<and> y1 = y2 then Some (Inr [(x1, y1)])
      else if \<bar>x2 - x1\<bar> > \<bar>y2 - y1\<bar> then
        (let sign = sgn_i (x2 - x1);
             numberOfPixels = \<bar>x2 - x1\<bar> + 1
         in case idiv numberOfPixels stepSize of
              Inl e \<Rightarrow> Some (Inl e)
            | Inr capacity \<Rightarrow>
                pixelLoop
                  (\<lambda>x. case idiv (x * (y2 - y1)) (x2 - x1) of
                         Inl e \<Rightarrow> Inl e
                       | Inr y \<Rightarrow> Inr (x1 + x * sign, y1 + y * sign))
                  stepSize numberOfPixels 0 [])
      else
        (let sign = sgn_i (y2 - y1);
             numberOfPixels = \<bar>y2 - y1\<bar> + 1
         in case idiv numberOfPixels stepSize of
              Inl e \<Rightarrow> Some (Inl e)
            | Inr capacity \<Rightarrow>
                pixelLoop
                  (\<lambda>y. case idiv (y * (x2 - x1)) (y2 - y1) of
                         Inl e \<Rightarrow> Inl e
                       | Inr x \<Rightarrow> Inr (x1 + x * sign, y1 + y * sign))
                  stepSize numberOfPixels 0 []))"

subsection \<open>Intersections\<close>

definition getIntersectionOfLines :: "Line \<Rightarrow> Line \<Rightarrow> Vector2f \<Rightarrow> error + bool \<times> Vector2f" where
  "getIntersectionOfLines line1 line2 intersection =
     (if vy (direction line1) * vx (direction line2) = vx (direction line1) * vy (direction line2)
      then Inr (False, intersection)
      else
        (case fdiv (vx (direction line1) *
                     (vy (base line1) * vx (direction line2) -
                      vy (base line2) * vx (direction line2) +
                      (- vx (base line1) + vx (base line2)) * vy (direction line2)))
                   ((- vy (direction line1)) * vx (direction line2) +
                    vx (direction line1) * vy (direction line2)) of
           Inl e \<Rightarrow> Inl e
         | Inr qx \<Rightarrow>
        (let intersection = (vx (base line1) + qx, vy intersection) in
        (case fdiv (vy (direction line1) *
                     (- vy (base line1) * vx (direction line2) +
                      vy (base line2) * vx (direction line2) +
                      (vx (base line1) - vx (base line2)) * vy (direction line2)))
                   (vy (direction line1) * vx (direction line2) -
                    vx (direction line1) * vy (direction line2)) of
           Inl e \<Rightarrow> Inl e
         | Inr qy \<Rightarrow>
        (let intersection = (vx intersection, vy (base line1) + qy) in
         Inr (True, intersection))))))"

definition getIntersectionOfCircles ::
  "Circle \<Rightarrow> Circle \<Rightarrow> Vector2f \<Rightarrow> Vector2f \<Rightarrow> error + int \<times> Vector2f \<times> Vector2f"
where
  "getIntersectionOfCircles c0 c1 p1 p2 =
     (let dx = vx (center c1) - vx (center c0);
          dy = vy (center c1) - vy (center c0)
      in
      (case fsqrt ((dy * dy) + (dx * dx)) of Inl e \<Rightarrow> Inl e | Inr d \<Rightarrow>
      if d > (radius c0 + radius c1) then Inr (0, p1, p2)
      else if d < \<bar>radius c0 - radius c1\<bar> then Inr (0, p1, p2)
      else
        (case fdiv ((radius c0 * radius c0) - (radius c1 * radius c1) + (d * d)) (2 * d) of
           Inl e \<Rightarrow> Inl e | Inr a \<Rightarrow>
        (case fdiv (dx * a) d of Inl e \<Rightarrow> Inl e | Inr xa \<Rightarrow>
        (case fdiv (dy * a) d of Inl e \<Rightarrow> Inl e | Inr ya \<Rightarrow>
        (let x2 = vx (center c0) + xa;
             y2 = vy (center c0) + ya
         in
        (case fsqrt ((radius c0 * radius c0) - (a * a)) of Inl e \<Rightarrow> Inl e | Inr h \<Rightarrow>
        (case fdiv h d of Inl e \<Rightarrow> Inl e | Inr hx \<Rightarrow>
        (case fdiv h d of Inl e \<Rightarrow> Inl e | Inr hy \<Rightarrow>
        (let rx = - dy * hx;
             ry = dx * hy;
             p1 = (x2 + rx, vy p1);
             p2 = (x2 - rx, vy p2);
             p1 = (vx p1, y2 + ry);
             p2 = (vx p2, y2 - ry)
         in Inr (if p1 = p2 then 1 else 2, p1, p2)))))))))))"

definition getIntersectionOfLineAndCircle ::
  "Line \<Rightarrow> Circle \<Rightarrow> Vector2f \<Rightarrow> Vector2f \<Rightarrow> error + int \<times> Vector2f \<times> Vector2f"
where
  "getIntersectionOfLineAndCircle line circle firstIntersection secondIntersection =
     (let divisor = squaredNorm (direction line) in
      (case fdiv (2 * (dot (base line) (direction line) - dot (center circle) (direction line)))
                 divisor of
         Inl e \<Rightarrow> Inl e | Inr p \<Rightarrow>
      (case fdiv (squaredNorm (vsub (base line) (center circle)) - sqr (radius circle)) divisor of
         Inl e \<Rightarrow> Inl e | Inr q \<Rightarrow>
      (case fdiv p 2 of Inl e \<Rightarrow> Inl e | Inr p_2 \<Rightarrow>
      (let radicand = sqr p_2 - q in
       if radicand < 0 then Inr (0, firstIntersection, secondIntersection)
       else
        (case fsqrt radicand of Inl e \<Rightarrow> Inl e | Inr radix \<Rightarrow>
        (let firstIntersection = vadd (base line) (vscale (direction line) (- p_2 + radix));
             secondIntersection = vadd (base line) (vscale (direction line) (- p_2 - radix))
         in Inr (if radicand = 0 then 1 else 2, firstIntersection, secondIntersection))))))))"

definition getIntersectionOfRaysFactor :: "Line \<Rightarrow> Line \<Rightarrow> real \<Rightarrow> error + bool \<times> real" where
  "getIntersectionOfRaysFactor ray1 ray2 factor =
     (let divisor = vx (direction ray2) * vy (direction ray1) -
                    vx (direction ray1) * vy (direction ray2)
      in
      if divisor = 0 then Inr (False, factor)
      else
        (case fdiv (vy (direction ray2) * vx (base ray1) - vy (direction ray2) * vx (base ray2) -
                    vx (direction ray2) * vy (base ray1) + vx (direction ray2) * vy (base ray2))
                   divisor of
           Inl e \<Rightarrow> Inl e | Inr k \<Rightarrow>
        (case fdiv (vy (direction ray1) * vx (base ray1) - vy (direction ray1) * vx (base ray2) -
                    vx (direction ray1) * vy (base ray1) + vx (direction ray1) * vy (base ray2))
                   divisor of
           Inl e \<Rightarrow> Inl e | Inr l \<Rightarrow>
        if (k \<ge> 0) \<and> (l \<ge> 0) \<and> (k \<le> 1) \<and> (l \<le> 1) then Inr (True, k)
        else Inr (False, factor))))"

subsection \<open>Orientation and containment\<close>

definition ccw :: "Vector2f \<Rightarrow> Vector2f \<Rightarrow> Vector2f \<Rightarrow> int" where
  "ccw p0 p1 p2 =
     (let dx1 = vx p1 - vx p0;
          dy1 = vy p1 - vy p0;
          dx2 = vx p2 - vx p0;
          dy2 = vy p2 - vy p0
      in
      if dx1 * dy2 > dy1 * dx2 then 1
      else if dx1 * dy2 < dy1 * dx2 then - 1
      else if (dx1 * dx2 < 0) \<or> (dy1 * dy2 < 0) then - 1
      else if (dx1 * dx1 + dy1 * dy1) \<ge> (dx2 * dx2 + dy2 * dy2) then 0
      else 1)"

text \<open>The loop of \<^verbatim>\<open>isPointInsideConvexPolygon\<close>, from the loop variable \<open>i\<close> on.\<close>

function convexPolygonLoop ::
  "Vector2f list \<Rightarrow> int \<Rightarrow> Vector2f \<Rightarrow> int \<Rightarrow> int \<Rightarrow> error + bool"
where
  "convexPolygonLoop polygon numberOfPoints point orientation i =
     (if i < numberOfPoints then
        (case elemAt polygon i of Inl e \<Rightarrow> Inl e | Inr a \<Rightarrow>
        (case irem (i + 1) numberOfPoints of Inl e \<Rightarrow> Inl e | Inr j \<Rightarrow>
        (case elemAt polygon j of Inl e \<Rightarrow> Inl e | Inr b \<Rightarrow>
        (let currentOrientation = ccw a b point in
         if currentOrientation = 0 then Inr True
         else if currentOrientation \<noteq> orientation then Inr False
         else convexPolygonLoop polygon numberOfPoints point orientation (i + 1)))))
      else Inr True)"
  by pat_completeness auto
termination
  by (relation "measure (\<lambda>(polygon, numberOfPoints, point, orientation, i). nat (numberOfPoints - i))")
     auto

declare convexPolygonLoop.simps [simp del]

definition isPointInsideConvexPolygon :: "Vector2f list \<Rightarrow> int \<Rightarrow> Vector2f \<Rightarrow> error + bool" where
  "isPointInsideConvexPolygon polygon numberOfPoints point =
     (case elemAt polygon 0 of Inl e \<Rightarrow> Inl e | Inr a \<Rightarrow>
     (case elemAt polygon 1 of Inl e \<Rightarrow> Inl e | Inr b \<Rightarrow>
     (let orientation = ccw a b point in
      if orientation = 0 then Inr True
      else convexPolygonLoop polygon numberOfPoints point orientation 1)))"


section \<open>Rasterization\<close>

subsection \<open>The loop\<close>





subsection \<open>calculatePixels\<close>



text \<open>
  C8: the line from (0,0) to (4,0) with step size 1 is exactly the five pixels
  (0,0), (1,0), (2,0), (3,0), (4,0) in this order; and for coincident endpoints and every
  step size the line is exactly the single pixel \<open>(x1, y1)\<close>.
\<close>

theorem calculatePixels_examples:
  "calculatePixels 0 0 4 0 1 = Some (Inr [(0, 0), (1, 0), (2, 0), (3, 0), (4, 0)])
   \<and> (\<forall>x1 y1 stepSize. calculatePixels x1 y1 x1 y1 stepSize = Some (Inr [(x1, y1)]))"
proof
  show "calculatePixels 0 0 4 0 1 = Some (Inr [(0, 0), (1, 0), (2, 0), (3, 0), (4, 0)])"
    by (simp add: calculatePixels_def sgn_i_def idiv_def tdiv_def pixelLoop.simps)
  show "\<forall>x1 y1 stepSize. calculatePixels x1 y1 x1 y1 stepSize = Some (Inr [(x1, y1)])"
    by (simp add: calculatePixels_def)
qed



section \<open>Orientation predicate\<close>



section \<open>Point in convex polygon\<close>

lemma irem_nonneg:
  assumes "0 \<le> a" "0 < b"
  shows "irem a b = Inr (a mod b)"
proof -
  have "a - sgn a * sgn b * (\<bar>a\<bar> div \<bar>b\<bar>) * b = a - a div b * b"
    using assms by (cases "a = 0") simp_all
  then show ?thesis
    using assms by (simp add: irem_def tdiv_def minus_div_mult_eq_mod)
qed

lemma elemAt_nat:
  "k < length xs \<Longrightarrow> elemAt xs (int k) = Inr (xs ! k)"
  by (simp add: elemAt_def)

text \<open>
  The loop from index \<open>k\<close> on: the first orientation of an edge \<open>k, k + 1, \<dots>\<close> that is 0
  or differs from \<open>orientation\<close> decides.
\<close>

lemma convexPolygonLoop_find:
  assumes "k \<le> length polygon"
  shows "convexPolygonLoop polygon (int (length polygon)) point orientation (int k) =
     Inr (case find (\<lambda>c. c = 0 \<or> c \<noteq> orientation)
                 (map (\<lambda>i. ccw (polygon ! i) (polygon ! ((i + 1) mod length polygon)) point)
                    [k ..< length polygon]) of
            None \<Rightarrow> True | Some c \<Rightarrow> c = 0)"
  using assms
proof (induction "length polygon - k" arbitrary: k)
  case 0
  then show ?case
    by (subst convexPolygonLoop.simps) simp
next
  case (Suc m)
  then have k: "k < length polygon" by simp
  have "irem (int k + 1) (int (length polygon)) = Inr ((int k + 1) mod int (length polygon))"
    using k by (intro irem_nonneg) auto
  then have j: "irem (int k + 1) (int (length polygon)) = Inr (int ((k + 1) mod length polygon))"
    by (simp add: zmod_int add.commute)
  have "0 < length polygon"
    using k by (cases polygon) simp_all
  then have jn: "(k + 1) mod length polygon < length polygon"
    by (rule mod_less_divisor)
  have IH: "convexPolygonLoop polygon (int (length polygon)) point orientation (int k + 1) =
     Inr (case find (\<lambda>c. c = 0 \<or> c \<noteq> orientation)
                 (map (\<lambda>i. ccw (polygon ! i) (polygon ! ((i + 1) mod length polygon)) point)
                    [Suc k ..< length polygon]) of
            None \<Rightarrow> True | Some c \<Rightarrow> c = 0)"
    using Suc.hyps(1) [of "Suc k"] Suc.hyps(2) k by (simp add: add.commute)
  show ?case
    apply (subst convexPolygonLoop.simps)
    apply (simp only: j elemAt_nat [OF k] elemAt_nat [OF jn] sum.case IH Let_def)
    using k apply (simp add: upt_conv_Cons)
    done
qed

text \<open>
  C6: for a polygon of at least 3 vertices, the orientations of the query point against
  the edges \<open>(0,1), (1,2), \<dots>, (n-1,0)\<close> are tested in this order, and the first one that is
  0 or differs from the first orientation decides: 0 gives true, a different one gives false,
  and when there is none (all orientations agree) the result is true. So the result is true
  as soon as a test yields 0, false as soon as a test differs from the first one, and true
  when all tests agree. On the unit square, (0.5,0.5) is inside, (2,2) is outside and the
  point (0,0.5) on an edge is inside.
\<close>

theorem isPointInsideConvexPolygon_cases:
  fixes polygon :: "Vector2f list" and point :: Vector2f
  defines "n \<equiv> length polygon"
  defines "os \<equiv> map (\<lambda>i. ccw (polygon ! i) (polygon ! ((i + 1) mod n)) point) [0 ..< n]"
  shows "(3 \<le> n \<longrightarrow>
       isPointInsideConvexPolygon polygon (int n) point =
         Inr (case find (\<lambda>c. c = 0 \<or> c \<noteq> hd os) os of None \<Rightarrow> True | Some c \<Rightarrow> c = 0)
       \<and> ((\<exists>j < n. os ! j = 0 \<and> (\<forall>i < j. os ! i = hd os)) \<longrightarrow>
            isPointInsideConvexPolygon polygon (int n) point = Inr True)
       \<and> ((\<exists>j < n. os ! j \<noteq> hd os \<and> (\<forall>i \<le> j. os ! i \<noteq> 0) \<and> (\<forall>i < j. os ! i = hd os)) \<longrightarrow>
            isPointInsideConvexPolygon polygon (int n) point = Inr False)
       \<and> ((\<forall>i < n. os ! i = hd os) \<longrightarrow>
            isPointInsideConvexPolygon polygon (int n) point = Inr True))
     \<and> isPointInsideConvexPolygon [(0, 0), (1, 0), (1, 1), (0, 1)] 4 (1 / 2, 1 / 2) = Inr True
     \<and> isPointInsideConvexPolygon [(0, 0), (1, 0), (1, 1), (0, 1)] 4 (2, 2) = Inr False
     \<and> isPointInsideConvexPolygon [(0, 0), (1, 0), (1, 1), (0, 1)] 4 (0, 1 / 2) = Inr True"
proof (intro conjI impI)
  let ?P = "\<lambda>c. c = 0 \<or> c \<noteq> hd os"
  let ?r = "isPointInsideConvexPolygon polygon (int n) point"
  assume n: "3 \<le> n"
  have len: "length os = n"
    by (simp add: os_def)
  have upt: "[0 ..< n] = 0 # [1 ..< n]"
    using n by (simp add: upt_conv_Cons)
  have os: "os = ccw (polygon ! 0) (polygon ! 1) point
                 # map (\<lambda>i. ccw (polygon ! i) (polygon ! ((i + 1) mod n)) point) [1 ..< n]"
    using n unfolding os_def upt by simp
  have e: "elemAt polygon 0 = Inr (polygon ! 0)" "elemAt polygon 1 = Inr (polygon ! 1)"
    using n by (auto simp: elemAt_def n_def)
  have loop: "convexPolygonLoop polygon (int n) point orientation 1 =
     Inr (case find (\<lambda>c. c = 0 \<or> c \<noteq> orientation)
                 (map (\<lambda>i. ccw (polygon ! i) (polygon ! ((i + 1) mod n)) point) [1 ..< n]) of
            None \<Rightarrow> True | Some c \<Rightarrow> c = 0)" for orientation
    using convexPolygonLoop_find [of 1 polygon point orientation] n by (simp add: n_def)
  have h: "hd os = ccw (polygon ! 0) (polygon ! 1) point"
    by (subst os) simp
  have f: "find ?P os =
     (if ccw (polygon ! 0) (polygon ! 1) point = 0 then Some 0
      else find (\<lambda>c. c = 0 \<or> c \<noteq> ccw (polygon ! 0) (polygon ! 1) point)
             (map (\<lambda>i. ccw (polygon ! i) (polygon ! ((i + 1) mod n)) point) [1 ..< n]))"
    unfolding h by (subst os) simp
  show res: "?r = Inr (case find ?P os of None \<Rightarrow> True | Some c \<Rightarrow> c = 0)"
    unfolding isPointInsideConvexPolygon_def e sum.case Let_def loop f
    by simp
  show "?r = Inr True" if "\<exists>j < n. os ! j = 0 \<and> (\<forall>i < j. os ! i = hd os)"
  proof (cases "find ?P os")
    case None
    then show ?thesis by (simp add: res)
  next
    case (Some c)
    from that obtain j where j: "j < n" "os ! j = 0" "\<forall>i < j. os ! i = hd os"
      by blast
    from Some obtain i where i: "i < length os" "?P (os ! i)" "c = os ! i" "\<forall>k < i. \<not> ?P (os ! k)"
      unfolding find_Some_iff by blast
    have "i \<le> j"
      using i(4) j(2) by (meson not_le_imp_less)
    then have "c = 0"
      using i(2,3) j(2,3) by (cases "i = j") auto
    then show ?thesis by (simp add: res Some)
  qed
  show "?r = Inr False"
    if "\<exists>j < n. os ! j \<noteq> hd os \<and> (\<forall>i \<le> j. os ! i \<noteq> 0) \<and> (\<forall>i < j. os ! i = hd os)"
  proof -
    from that obtain j where j: "j < n" "os ! j \<noteq> hd os" "\<forall>i \<le> j. os ! i \<noteq> 0"
      "\<forall>i < j. os ! i = hd os"
      by blast
    have "find ?P os = Some (os ! j)"
      unfolding find_Some_iff using j len by (intro exI [of _ j]) auto
    then show ?thesis
      using j(3) by (simp add: res)
  qed
  show "?r = Inr True" if "\<forall>i < n. os ! i = hd os"
  proof (cases "find ?P os")
    case None
    then show ?thesis by (simp add: res)
  next
    case (Some c)
    then obtain i where "i < length os" "?P (os ! i)" "c = os ! i"
      unfolding find_Some_iff by blast
    then have "c = 0"
      using that len by auto
    then show ?thesis by (simp add: res Some)
  qed
next
  have u: "[1 ..< 4] = [1, 2, 3]"
    by (simp add: upt_conv_Cons)
  have l: "convexPolygonLoop [(0, 0), (1, 0), (1, 1), (0, 1)] 4 point orientation 1 =
     Inr (case find (\<lambda>c. c = 0 \<or> c \<noteq> orientation)
                 (map (\<lambda>i. ccw ([(0, 0), (1, 0), (1, 1), (0, 1)] ! i)
                                ([(0, 0), (1, 0), (1, 1), (0, 1)] ! ((i + 1) mod 4)) point)
                    [1, 2, 3]) of
            None \<Rightarrow> True | Some c \<Rightarrow> c = 0)" for point orientation
    using convexPolygonLoop_find [of 1 "[(0, 0), (1, 0), (1, 1), (0, 1)]" point orientation]
    by (simp add: u)
  show "isPointInsideConvexPolygon [(0, 0), (1, 0), (1, 1), (0, 1)] 4 (1 / 2, 1 / 2) = Inr True"
    by (simp add: isPointInsideConvexPolygon_def elemAt_def l ccw_def)
  show "isPointInsideConvexPolygon [(0, 0), (1, 0), (1, 1), (0, 1)] 4 (2, 2) = Inr False"
    by (simp add: isPointInsideConvexPolygon_def elemAt_def l ccw_def)
  show "isPointInsideConvexPolygon [(0, 0), (1, 0), (1, 1), (0, 1)] 4 (0, 1 / 2) = Inr True"
    by (simp add: isPointInsideConvexPolygon_def elemAt_def l ccw_def)
qed

theorem isPointInsideConvexPolygon_cases_witness:
  "isPointInsideConvexPolygon [(0, 0), (2, 0), (0, 2)] 3 (1 / 2, 1 / 2) = Inr True
   \<and> isPointInsideConvexPolygon [(0, 0), (2, 0), (0, 2)] 3 (3, 3) = Inr False
   \<and> isPointInsideConvexPolygon [(0, 0), (2, 0), (0, 2)] 3 (1, 0) = Inr True"
proof -
  have u: "[0 ..< 3] = [0, 1, 2]"
    by (simp add: upt_conv_Cons)
  show ?thesis
    using isPointInsideConvexPolygon_cases
            [where polygon = "[(0, 0), (2, 0), (0, 2)]" and point = "(1 / 2, 1 / 2)"]
          isPointInsideConvexPolygon_cases
            [where polygon = "[(0, 0), (2, 0), (0, 2)]" and point = "(3, 3)"]
          isPointInsideConvexPolygon_cases
            [where polygon = "[(0, 0), (2, 0), (0, 2)]" and point = "(1, 0)"]
    by (simp add: u ccw_def)
qed

section \<open>Circle against axis-aligned rectangle\<close>



section \<open>Intersection of two lines\<close>




section \<open>Intersection of two segments\<close>




section \<open>Intersection of two circles\<close>

text \<open>
  When the distance \<open>d\<close> of the centers is positive and within \<open>[\<bar>r0 - r1\<bar>, r0 + r1]\<close>,
  the offset \<open>a\<close> along the center line is at most \<open>r0\<close> in absolute value, so the height
  \<open>h\<close> is the square root of a number that is not negative.
\<close>

lemma offset_within_radius:
  fixes r0 r1 d :: real
  defines "a \<equiv> (r0 * r0 - r1 * r1 + d * d) / (2 * d)"
  assumes "0 < d" "\<not> d > r0 + r1" "\<not> d < \<bar>r0 - r1\<bar>"
  shows "0 \<le> r0 * r0 - a * a"
proof -
  have a: "2 * d * a = r0 * r0 - r1 * r1 + d * d"
    using assms(2) by (simp add: a_def)
  have "0 \<le> (r0 + d - r1) * (r0 + d + r1)"
    using assms by (intro mult_nonneg_nonneg) auto
  also have "\<dots> = 2 * d * (r0 + a)"
    unfolding distrib_left a by (simp add: algebra_simps)
  finally have p: "0 \<le> r0 + a"
    using assms(2) by (simp add: zero_le_mult_iff)
  have "0 \<le> (r1 - r0 + d) * (r1 + r0 - d)"
    using assms by (intro mult_nonneg_nonneg) auto
  also have "\<dots> = 2 * d * (r0 - a)"
    unfolding right_diff_distrib a by (simp add: algebra_simps)
  finally have m: "0 \<le> r0 - a"
    using assms(2) by (simp add: zero_le_mult_iff)
  have "0 \<le> (r0 - a) * (r0 + a)"
    using p m by (rule mult_nonneg_nonneg [rotated])
  then show ?thesis
    by (simp add: algebra_simps)
qed

lemma getIntersectionOfCircles_unfold:
  fixes c0 c1 :: Circle and p1 p2 :: Vector2f
  defines "dx \<equiv> vx (center c1) - vx (center c0)"
    and "dy \<equiv> vy (center c1) - vy (center c0)"
  defines "d \<equiv> sqrt (dy * dy + dx * dx)"
  defines "a \<equiv> (radius c0 * radius c0 - radius c1 * radius c1 + d * d) / (2 * d)"
  defines "h \<equiv> sqrt (radius c0 * radius c0 - a * a)"
  defines "q1 \<equiv> (vx (center c0) + dx * a / d + - dy * (h / d),
                 vy (center c0) + dy * a / d + dx * (h / d))"
    and "q2 \<equiv> (vx (center c0) + dx * a / d - - dy * (h / d),
               vy (center c0) + dy * a / d - dx * (h / d))"
  shows "getIntersectionOfCircles c0 c1 p1 p2 =
     (if d > radius c0 + radius c1 \<or> d < \<bar>radius c0 - radius c1\<bar> then Inr (0, p1, p2)
      else if d = 0 then Inl DivisionByZero
      else Inr (if q1 = q2 then 1 else 2, q1, q2))"
proof -
  have s: "fsqrt (dy * dy + dx * dx) = Inr d"
    by (simp add: fsqrt_def d_def not_less)
  show ?thesis
  proof (cases "d > radius c0 + radius c1 \<or> d < \<bar>radius c0 - radius c1\<bar>")
    case True
    then show ?thesis
      unfolding getIntersectionOfCircles_def Let_def dx_def [symmetric] dy_def [symmetric] s
      by auto
  next
    case False
    show ?thesis
    proof (cases "d = 0")
      case True
      with False show ?thesis
        unfolding getIntersectionOfCircles_def Let_def dx_def [symmetric] dy_def [symmetric] s
        by (simp add: fdiv_def)
    next
      case nz: False
      have "0 \<le> d" by (simp add: d_def)
      with nz have pos: "0 < d" by simp
      have "0 \<le> radius c0 * radius c0 - a * a"
        unfolding a_def using pos False by (intro offset_within_radius) auto
      then have hs: "fsqrt (radius c0 * radius c0 - a * a) = Inr h"
        by (simp add: fsqrt_def h_def not_less)
      have fa: "fdiv (radius c0 * radius c0 - radius c1 * radius c1 + d * d) (2 * d) = Inr a"
        using nz by (simp add: fdiv_def a_def)
      have fd: "fdiv x d = Inr (x / d)" for x
        using nz by (simp add: fdiv_def)
      show ?thesis
        unfolding getIntersectionOfCircles_def Let_def dx_def [symmetric] dy_def [symmetric] s
          sum.case fa fd hs
        using False nz by (simp add: q1_def q2_def)
    qed
  qed
qed



section \<open>Line and circle, output parameters and divisions\<close>

text \<open>
  The line-circle intersection divides by the squared norm of the direction without a test:
  for the zero direction this is a division by zero, and for every other direction all
  divisions and the square root are defined.
\<close>

lemma getIntersectionOfLineAndCircle_unfold:
  fixes line :: Line and circle :: Circle
  defines "divisor \<equiv> squaredNorm (direction line)"
  defines "p \<equiv> 2 * (dot (base line) (direction line) - dot (center circle) (direction line)) / divisor"
    and "q \<equiv> (squaredNorm (vsub (base line) (center circle)) - sqr (radius circle)) / divisor"
  defines "radicand \<equiv> sqr (p / 2) - q"
  shows "getIntersectionOfLineAndCircle line circle firstIntersection secondIntersection =
     (if direction line = (0, 0) then Inl DivisionByZero
      else if radicand < 0 then Inr (0, firstIntersection, secondIntersection)
      else Inr (if radicand = 0 then 1 else 2,
                vadd (base line) (vscale (direction line) (- (p / 2) + sqrt radicand)),
                vadd (base line) (vscale (direction line) (- (p / 2) - sqrt radicand))))"
proof (cases "direction line = (0, 0)")
  case True
  then show ?thesis
    by (simp add: getIntersectionOfLineAndCircle_def squaredNorm_def fdiv_def)
next
  case False
  then have nz: "divisor \<noteq> 0"
    by (simp add: divisor_def squaredNorm_def prod_eq_iff)
  have fd: "fdiv x divisor = Inr (x / divisor)" "fdiv x 2 = Inr (x / 2)" for x
    using nz by (simp_all add: fdiv_def)
  show ?thesis
    unfolding getIntersectionOfLineAndCircle_def Let_def divisor_def [symmetric] fd sum.case
      p_def [symmetric] q_def [symmetric] radicand_def [symmetric]
    using False by (simp add: fsqrt_def)
qed

text \<open>
  C10: whenever getIntersectionOfLines or getIntersectionOfRaysFactor returns false, and
  whenever getIntersectionOfCircles or getIntersectionOfLineAndCircle returns 0, the output
  parameters have the values they had before the call.
\<close>

theorem outputs_unchanged_on_failure:
  "(getIntersectionOfLines line1 line2 intersection = Inr (False, intersection') \<longrightarrow>
      intersection' = intersection)
   \<and> (getIntersectionOfRaysFactor ray1 ray2 factor = Inr (False, factor') \<longrightarrow> factor' = factor)
   \<and> (getIntersectionOfCircles c0 c1 p1 p2 = Inr (0, p1', p2') \<longrightarrow> p1' = p1 \<and> p2' = p2)
   \<and> (getIntersectionOfLineAndCircle line circle firstIntersection secondIntersection =
        Inr (0, firstIntersection', secondIntersection') \<longrightarrow>
      firstIntersection' = firstIntersection \<and> secondIntersection' = secondIntersection)"
proof (intro conjI impI)
  assume "getIntersectionOfLines line1 line2 intersection = Inr (False, intersection')"
  then show "intersection' = intersection"
    by (simp add: getIntersectionOfLines_def Let_def split: if_splits sum.splits)
next
  assume "getIntersectionOfRaysFactor ray1 ray2 factor = Inr (False, factor')"
  then show "factor' = factor"
    by (simp add: getIntersectionOfRaysFactor_def Let_def split: if_splits sum.splits)
next
  assume r: "getIntersectionOfCircles c0 c1 p1 p2 = Inr (0, p1', p2')"
  then show "p1' = p1" "p2' = p2"
    unfolding getIntersectionOfCircles_unfold by (simp_all split: if_splits)
next
  assume r: "getIntersectionOfLineAndCircle line circle firstIntersection secondIntersection =
        Inr (0, firstIntersection', secondIntersection')"
  then show "firstIntersection' = firstIntersection" "secondIntersection' = secondIntersection"
    unfolding getIntersectionOfLineAndCircle_unfold by (simp_all split: if_splits)
qed

theorem outputs_unchanged_on_failure_witness:
  "getIntersectionOfLines \<lparr>base = (0, 0), direction = (1, 0)\<rparr>
      \<lparr>base = (3, 4), direction = (2, 0)\<rparr> (7, 7) = Inr (False, (7, 7))
   \<and> getIntersectionOfRaysFactor \<lparr>base = (0, 0), direction = (2, 0)\<rparr>
      \<lparr>base = (3, - 1), direction = (0, 2)\<rparr> 7 = Inr (False, 7)
   \<and> getIntersectionOfCircles \<lparr>center = (0, 0), radius = 1\<rparr> \<lparr>center = (10, 0), radius = 1\<rparr>
      (7, 7) (8, 8) = Inr (0, (7, 7), (8, 8))
   \<and> getIntersectionOfLineAndCircle \<lparr>base = (0, 2), direction = (1, 0)\<rparr>
      \<lparr>center = (0, 0), radius = 1\<rparr> (7, 7) (8, 8) = Inr (0, (7, 7), (8, 8))"
proof -
  have s: "sqrt 100 = 10"
    using real_sqrt_abs [of 10] by simp
  have l: "getIntersectionOfLines \<lparr>base = (0, 0), direction = (1, 0)\<rparr>
      \<lparr>base = (3, 4), direction = (2, 0)\<rparr> (7, 7) = Inr (False, (7, 7))"
    by (simp add: getIntersectionOfLines_def)
  have r: "getIntersectionOfRaysFactor \<lparr>base = (0, 0), direction = (2, 0)\<rparr>
      \<lparr>base = (3, - 1), direction = (0, 2)\<rparr> 7 = Inr (False, 7)"
    by (simp add: getIntersectionOfRaysFactor_def fdiv_def)
  have c: "getIntersectionOfCircles \<lparr>center = (0, 0), radius = 1\<rparr>
      \<lparr>center = (10, 0), radius = 1\<rparr> (7, 7) (8, 8) = Inr (0, (7, 7), (8, 8))"
    by (simp add: getIntersectionOfCircles_def fsqrt_def s)
  have lc: "getIntersectionOfLineAndCircle \<lparr>base = (0, 2), direction = (1, 0)\<rparr>
      \<lparr>center = (0, 0), radius = 1\<rparr> (7, 7) (8, 8) = Inr (0, (7, 7), (8, 8))"
    by (simp add: getIntersectionOfLineAndCircle_def fdiv_def squaredNorm_def dot_def vsub_def
          sqr_def)
  show ?thesis
    using outputs_unchanged_on_failure
      [where ?line1.0 = "\<lparr>base = (0, 0), direction = (1, 0)\<rparr>"
         and ?line2.0 = "\<lparr>base = (3, 4), direction = (2, 0)\<rparr>"
         and intersection = "(7, 7)" and intersection' = "(7, 7)"
         and ?ray1.0 = "\<lparr>base = (0, 0), direction = (2, 0)\<rparr>"
         and ?ray2.0 = "\<lparr>base = (3, - 1), direction = (0, 2)\<rparr>"
         and factor = 7 and factor' = 7
         and ?c0.0 = "\<lparr>center = (0, 0), radius = 1\<rparr>"
         and ?c1.0 = "\<lparr>center = (10, 0), radius = 1\<rparr>"
         and ?p1.0 = "(7, 7)" and ?p2.0 = "(8, 8)" and p1' = "(7, 7)" and p2' = "(8, 8)"
         and line = "\<lparr>base = (0, 2), direction = (1, 0)\<rparr>"
         and circle = "\<lparr>center = (0, 0), radius = 1\<rparr>"
         and firstIntersection = "(7, 7)" and secondIntersection = "(8, 8)"
         and firstIntersection' = "(7, 7)" and secondIntersection' = "(8, 8)"]
      l r c lc
    by simp
qed

text \<open>
  C1: the divisions of getIntersectionOfLines and getIntersectionOfRaysFactor are behind
  the test of the divisor and never divide by zero. The divisions of
  getIntersectionOfLineAndCircle and of getIntersectionOfCircles are not: the first divides
  by zero exactly for a line with the zero direction, the second exactly for two equal
  circles (same center, same radius, not negative). The line through (0,0) with direction
  (0,0) against the unit circle, and the unit circle against itself, are such inputs.
\<close>

theorem division_by_zero_reached:
  "(\<forall>e. getIntersectionOfLines line1 line2 intersection \<noteq> Inl e)
   \<and> (\<forall>e. getIntersectionOfRaysFactor ray1 ray2 factor \<noteq> Inl e)
   \<and> (getIntersectionOfLineAndCircle line circle firstIntersection secondIntersection =
         Inl DivisionByZero \<longleftrightarrow> direction line = (0, 0))
   \<and> (getIntersectionOfCircles c0 c1 p1 p2 = Inl DivisionByZero \<longleftrightarrow>
         center c0 = center c1 \<and> radius c0 = radius c1 \<and> 0 \<le> radius c0)
   \<and> getIntersectionOfLineAndCircle \<lparr>base = (0, 0), direction = (0, 0)\<rparr>
        \<lparr>center = (0, 0), radius = 1\<rparr> firstIntersection secondIntersection = Inl DivisionByZero
   \<and> getIntersectionOfCircles \<lparr>center = (0, 0), radius = 1\<rparr> \<lparr>center = (0, 0), radius = 1\<rparr>
        p1 p2 = Inl DivisionByZero"
proof (intro conjI allI)
  fix e
  show "getIntersectionOfLines line1 line2 intersection \<noteq> Inl e"
    by (auto simp: getIntersectionOfLines_def fdiv_def Let_def)
  show "getIntersectionOfRaysFactor ray1 ray2 factor \<noteq> Inl e"
    by (auto simp: getIntersectionOfRaysFactor_def fdiv_def Let_def)
next
  show "getIntersectionOfLineAndCircle line circle firstIntersection secondIntersection =
         Inl DivisionByZero \<longleftrightarrow> direction line = (0, 0)"
    unfolding getIntersectionOfLineAndCircle_unfold by simp
next
  define dx dy where "dx = vx (center c1) - vx (center c0)"
    and "dy = vy (center c1) - vy (center c0)"
  have d: "sqrt (dy * dy + dx * dx) = 0 \<longleftrightarrow> center c0 = center c1"
    by (auto simp: dx_def dy_def prod_eq_iff)
  have n: "0 \<le> sqrt (dy * dy + dx * dx)"
    by simp
  show "getIntersectionOfCircles c0 c1 p1 p2 = Inl DivisionByZero \<longleftrightarrow>
         center c0 = center c1 \<and> radius c0 = radius c1 \<and> 0 \<le> radius c0"
    unfolding getIntersectionOfCircles_unfold dx_def [symmetric] dy_def [symmetric]
    using d n by (cases "sqrt (dy * dy + dx * dx) = 0") auto
next
  show "getIntersectionOfLineAndCircle \<lparr>base = (0, 0), direction = (0, 0)\<rparr>
        \<lparr>center = (0, 0), radius = 1\<rparr> firstIntersection secondIntersection = Inl DivisionByZero"
    by (simp add: getIntersectionOfLineAndCircle_def fdiv_def squaredNorm_def)
  show "getIntersectionOfCircles \<lparr>center = (0, 0), radius = 1\<rparr> \<lparr>center = (0, 0), radius = 1\<rparr>
        p1 p2 = Inl DivisionByZero"
    by (simp add: getIntersectionOfCircles_def fdiv_def fsqrt_def)
qed

end
